theory Spec2Isabelle
  imports Main "HOL-Library.Char_ord" "HOL-Library.List_Lexorder" "HOL-Library.Multiset"
begin

section \<open>JavaScript values and operators used by the login component\<close>

text \<open>
  The login component of the playground (\<^verbatim>\<open>login.component.ts\<close>) groups identity cards by
  connection profile and orders both the profiles and the cards of each profile. Its
  comparators rely on three pieces of JavaScript semantics, which are written out here:
  truthiness (\<^verbatim>\<open>!x\<close>), the relational operators on strings and arrays, and a function that
  ends without \<^verbatim>\<open>return\<close> (its value is \<^verbatim>\<open>undefined\<close>).

  A value handed to \<^verbatim>\<open>sortBy\<close> is \<^verbatim>\<open>undefined\<close>, a string or an array of strings.
\<close>

datatype jsval = Undefined | Str string | Arr "string list"

text \<open>\<^verbatim>\<open>ToBoolean\<close>: \<^verbatim>\<open>undefined\<close> and the empty string are falsy, every array is truthy.\<close>

fun truthy :: "jsval \<Rightarrow> bool" where
  "truthy Undefined = False"
| "truthy (Str s) = (s \<noteq> [])"
| "truthy (Arr xs) = True"

text \<open>\<^verbatim>\<open>Array.prototype.join\<close> on an array of strings.\<close>

fun join :: "string \<Rightarrow> string list \<Rightarrow> string" where
  "join sep [] = []"
| "join sep [x] = x"
| "join sep (x # y # ys) = x @ sep @ join sep (y # ys)"

text \<open>
  \<^verbatim>\<open>ToPrimitive\<close> for a relational comparison: a string is itself, an array becomes its
  \<^verbatim>\<open>toString()\<close>, the elements joined by commas. \<^verbatim>\<open>undefined\<close> stays \<^verbatim>\<open>undefined\<close>
  (\<open>None\<close>) and is then converted to \<^verbatim>\<open>NaN\<close>.
\<close>

fun toPrimitive :: "jsval \<Rightarrow> string option" where
  "toPrimitive Undefined = None"
| "toPrimitive (Str s) = Some s"
| "toPrimitive (Arr xs) = Some (join '','' xs)"

text \<open>
  \<^verbatim>\<open>a < b\<close> and \<^verbatim>\<open>a > b\<close>: two strings are compared code unit by code unit, the shorter
  one first when it is a prefix of the other; a comparison with \<^verbatim>\<open>NaN\<close> is false.
\<close>

definition js_lt :: "jsval \<Rightarrow> jsval \<Rightarrow> bool" where
  "js_lt a b =
     (case (toPrimitive a, toPrimitive b) of
        (Some x, Some y) \<Rightarrow> x < y
      | _ \<Rightarrow> False)"

definition js_gt :: "jsval \<Rightarrow> jsval \<Rightarrow> bool" where
  "js_gt a b =
     (case (toPrimitive a, toPrimitive b) of
        (Some x, Some y) \<Rightarrow> y < x
      | _ \<Rightarrow> False)"

definition jsStr :: "string option \<Rightarrow> jsval" where
  "jsStr v = (case v of None \<Rightarrow> Undefined | Some s \<Rightarrow> Str s)"

subsection \<open>Arrays\<close>

text \<open>\<^verbatim>\<open>Array.prototype.indexOf\<close>: the first index holding the element, \<open>-1\<close> when there is none.\<close>

fun indexOf :: "'a list \<Rightarrow> 'a \<Rightarrow> int" where
  "indexOf [] v = -1"
| "indexOf (x # xs) v =
     (if x = v then 0 else (let i = indexOf xs v in if i < 0 then -1 else i + 1))"

text \<open>\<^verbatim>\<open>xs[i]\<close>: \<^verbatim>\<open>undefined\<close> (\<open>None\<close>) for an index that is negative or past the end.\<close>

definition at :: "'a list \<Rightarrow> int \<Rightarrow> 'a option" where
  "at xs i = (if 0 \<le> i \<and> i < int (length xs) then Some (xs ! nat i) else None)"

text \<open>
  \<^verbatim>\<open>Array.prototype.splice(start, deleteCount)\<close> without inserted items: a negative start
  counts from the end, and both numbers are clamped to the array.
\<close>

definition splice_js :: "'a list \<Rightarrow> int \<Rightarrow> int \<Rightarrow> 'a list" where
  "splice_js xs start deleteCount =
     (let len = int (length xs);
          actualStart = (if start < 0 then max (len + start) 0 else min start len);
          actualDeleteCount = min (max deleteCount 0) (len - actualStart)
      in take (nat actualStart) xs @ drop (nat (actualStart + actualDeleteCount)) xs)"

definition unshift :: "'a list \<Rightarrow> 'a \<Rightarrow> 'a list" where
  "unshift xs v = v # xs"

subsection \<open>\<^verbatim>\<open>Array.prototype.sort\<close> with a comparison function\<close>

datatype error = TypeError

text \<open>
  \<^verbatim>\<open>SortCompare\<close> converts the comparator's result with \<^verbatim>\<open>ToNumber\<close> and reads \<^verbatim>\<open>NaN\<close>
  as \<open>+0\<close>: a comparator that ends without \<^verbatim>\<open>return\<close> (\<open>None\<close>) reports a tie.
\<close>

fun sortCompare :: "int option \<Rightarrow> int" where
  "sortCompare None = 0"
| "sortCompare (Some v) = v"

text \<open>
  ECMAScript requires the sort to be stable; for a comparator that is a total preorder the
  result is then determined, and a stable insertion sort computes it. An exception thrown
  by the comparator (\<open>Inl\<close>) ends the sort.
\<close>

fun insertBy :: "('a \<Rightarrow> 'a \<Rightarrow> error + int option) \<Rightarrow> 'a \<Rightarrow> 'a list \<Rightarrow> error + 'a list" where
  "insertBy cmp x [] = Inr [x]"
| "insertBy cmp x (y # ys) =
     (case cmp x y of
        Inl e \<Rightarrow> Inl e
      | Inr v \<Rightarrow>
          if sortCompare v \<le> 0 then Inr (x # y # ys)
          else (case insertBy cmp x ys of
                  Inl e \<Rightarrow> Inl e
                | Inr zs \<Rightarrow> Inr (y # zs)))"

fun array_sort :: "('a \<Rightarrow> 'a \<Rightarrow> error + int option) \<Rightarrow> 'a list \<Rightarrow> error + 'a list" where
  "array_sort cmp [] = Inr []"
| "array_sort cmp (x # xs) =
     (case array_sort cmp xs of
        Inl e \<Rightarrow> Inl e
      | Inr ys \<Rightarrow> insertBy cmp x ys)"

subsection \<open>\<^verbatim>\<open>Map\<close>\<close>

text \<open>
  A \<^verbatim>\<open>Map\<close> iterates in insertion order, so it is an association list with distinct keys:
  \<^verbatim>\<open>set\<close> overwrites the value of a key in place and appends a new key at the end.
\<close>

type_synonym ('k, 'v) jsmap = "('k \<times> 'v) list"

definition mapGet :: "('k, 'v) jsmap \<Rightarrow> 'k \<Rightarrow> 'v option" where
  "mapGet m k = map_of m k"

definition mapHas :: "('k, 'v) jsmap \<Rightarrow> 'k \<Rightarrow> bool" where
  "mapHas m k = (map_of m k \<noteq> None)"

fun mapSet :: "('k, 'v) jsmap \<Rightarrow> 'k \<Rightarrow> 'v \<Rightarrow> ('k, 'v) jsmap" where
  "mapSet [] k v = [(k, v)]"
| "mapSet (p # ps) k v = (if fst p = k then (k, v) # ps else p # mapSet ps k v)"

definition mapKeys :: "('k, 'v) jsmap \<Rightarrow> 'k list" where
  "mapKeys m = map fst m"

section \<open>Identity cards and the identity card service\<close>

text \<open>
  Modelled from the spec: the connection profile object, of which the component reads the
  \<^verbatim>\<open>name\<close> field; the profile's type stands for the rest of what identifies it.
\<close>

record ConnectionProfile =
  name :: string
  profileType :: string

text \<open>
  Modelled from the spec: the \<^verbatim>\<open>IdCard\<close> class of composer-common, as what a card
  stores and the accessors the component calls. A name or a business network name is a
  string or absent. The roles a card stores are a sequence of role names or absent.
\<close>

record IdCard =
  getName :: "string option"
  getBusinessNetworkName :: "string option"
  roles :: "string list option"
  getConnectionProfile :: ConnectionProfile

text \<open>
  Modelled from the spec: the accessor \<^verbatim>\<open>getRoles\<close> of \<^verbatim>\<open>IdCard\<close>. The roles of a
  card are an ordered sequence of role names that may be empty: the accessor always
  returns an array, the empty one for a card that stores no roles.
\<close>

definition getRoles :: "IdCard \<Rightarrow> string list" where
  "getRoles idCard = (case roles idCard of None \<Rightarrow> [] | Some roleNames \<Rightarrow> roleNames)"

text \<open>
  Modelled from the spec: the identity card service, the store that owns the cards.
  \<^verbatim>\<open>getIdentityCards\<close> hands out its mapping from card reference to card,
  \<^verbatim>\<open>getIdentityCard\<close> looks one reference up in it, and \<^verbatim>\<open>getQualifiedProfileName\<close>
  derives the profile reference of a connection profile.
\<close>

record IdentityCardService =
  getIdentityCards :: "(string, IdCard) jsmap"
  getQualifiedProfileName :: "ConnectionProfile \<Rightarrow> string"

definition getIdentityCard :: "IdentityCardService \<Rightarrow> string \<Rightarrow> IdCard option" where
  "getIdentityCard svc cardRef = mapGet (getIdentityCards svc) cardRef"

section \<open>The comparators\<close>

definition sortBy :: "jsval \<Rightarrow> jsval \<Rightarrow> int" where
  "sortBy aName bName =
     (if \<not> truthy aName \<and> \<not> truthy bName then 0
      else if \<not> truthy aName \<and> truthy bName then -1
      else if truthy aName \<and> \<not> truthy bName then 1
      else if js_lt aName bName then -1
      else if js_gt aName bName then 1
      else 0)"

text \<open>
  The body of \<^verbatim>\<open>sortIdCards\<close> once both cards are found. The third comparison is assigned
  to \<^verbatim>\<open>result\<close> and the function ends there, so its value is \<^verbatim>\<open>undefined\<close> (\<open>None\<close>).
\<close>

definition compareIdCards :: "IdCard \<Rightarrow> IdCard \<Rightarrow> int option" where
  "compareIdCards cardA cardB =
     (let aBusinessNetwork = jsStr (getBusinessNetworkName cardA);
          bBusinessNetwork = jsStr (getBusinessNetworkName cardB);
          aName = jsStr (getName cardA);
          bName = jsStr (getName cardB);
          aRoles = Arr (getRoles cardA);
          bRoles = Arr (getRoles cardB);
          result = sortBy aBusinessNetwork bBusinessNetwork
      in if result \<noteq> 0 then Some result
         else (let result = sortBy aRoles bRoles
               in if result \<noteq> 0 then Some result
                  else (let result = sortBy aName bName in None)))"

text \<open>Calling an accessor on a card that the service does not hold throws a \<^verbatim>\<open>TypeError\<close>.\<close>

definition sortIdCards :: "IdentityCardService \<Rightarrow> string \<Rightarrow> string \<Rightarrow> error + int option" where
  "sortIdCards svc a b =
     (case (getIdentityCard svc a, getIdentityCard svc b) of
        (Some cardA, Some cardB) \<Rightarrow> Inr (compareIdCards cardA cardB)
      | _ \<Rightarrow> Inl TypeError)"

text \<open>The comparator of the connection profiles, by display name; a tie ends without \<^verbatim>\<open>return\<close>.\<close>

definition compareProfiles :: "(string, string) jsmap \<Rightarrow> string \<Rightarrow> string \<Rightarrow> error + int option" where
  "compareProfiles names a b =
     (let aName = jsStr (mapGet names a);
          bName = jsStr (mapGet names b)
      in if js_lt aName bName then Inr (Some (-1))
         else if js_gt aName bName then Inr (Some 1)
         else Inr None)"

section \<open>The login component\<close>

record LoginComponent =
  connectionProfileRefs :: "string option list"
  connectionProfileNames :: "(string, string) jsmap"
  connectionProfiles :: "(string, ConnectionProfile) jsmap"
  idCardRefs :: "(string, string list) jsmap"
  idCards :: "(string, IdCard) jsmap"
  errorStatus :: "error list"

text \<open>
  The callback of \<^verbatim>\<open>map\<close>, for one card reference and the card stored under it: it
  records a profile seen for the first time and returns the pair of profile reference and
  card reference.
\<close>

definition discoverProfile ::
  "IdentityCardService \<Rightarrow> string \<times> IdCard \<Rightarrow>
     (string, string) jsmap \<times> (string, ConnectionProfile) jsmap \<Rightarrow>
     (string \<times> string) \<times> (string, string) jsmap \<times> (string, ConnectionProfile) jsmap" where
  "discoverProfile svc entry maps =
     (let cardRef = fst entry;
          connectionProfile = getConnectionProfile (snd entry);
          connectionProfileRef = getQualifiedProfileName svc connectionProfile;
          maps' = (if \<not> mapHas (fst maps) connectionProfileRef
                   then (mapSet (fst maps) connectionProfileRef (name connectionProfile),
                         mapSet (snd maps) connectionProfileRef connectionProfile)
                   else maps)
      in ((connectionProfileRef, cardRef), maps'))"

text \<open>
  \<^verbatim>\<open>Array.from(cards.keys()).map(...)\<close>: the keys in insertion order, each with the card
  that \<^verbatim>\<open>cards.get\<close> returns for it, the two maps of the component threaded through.
\<close>

fun mapCards ::
  "IdentityCardService \<Rightarrow> (string, IdCard) jsmap \<Rightarrow>
     (string, string) jsmap \<times> (string, ConnectionProfile) jsmap \<Rightarrow>
     (string \<times> string) list \<times> (string, string) jsmap \<times> (string, ConnectionProfile) jsmap" where
  "mapCards svc [] maps = ([], maps)"
| "mapCards svc (entry # rest) maps =
     (let (pair, maps') = discoverProfile svc entry maps;
          (pairs, maps'') = mapCards svc rest maps'
      in (pair # pairs, maps''))"

text \<open>The callback of \<^verbatim>\<open>reduce\<close>: append the card reference to the group of its profile.\<close>

definition groupCardRef ::
  "(string, string list) jsmap \<Rightarrow> string \<times> string \<Rightarrow> (string, string list) jsmap" where
  "groupCardRef prev cur =
     (let curCardRefs = (case mapGet prev (fst cur) of None \<Rightarrow> [] | Some refs \<Rightarrow> refs);
          cardRef = snd cur
      in mapSet prev (fst cur) (curCardRefs @ [cardRef]))"

text \<open>\<^verbatim>\<open>newCardRefs.forEach\<close>: every group is sorted in place with \<^verbatim>\<open>sortIdCards\<close>.\<close>

fun sortGroups ::
  "IdentityCardService \<Rightarrow> (string, string list) jsmap \<Rightarrow> error + (string, string list) jsmap" where
  "sortGroups svc [] = Inr []"
| "sortGroups svc ((key, cardRefs) # rest) =
     (case array_sort (sortIdCards svc) cardRefs of
        Inl e \<Rightarrow> Inl e
      | Inr sortedRefs \<Rightarrow>
          (case sortGroups svc rest of
             Inl e \<Rightarrow> Inl e
           | Inr rest' \<Rightarrow> Inr ((key, sortedRefs) # rest')))"

text \<open>
  The order of the profiles: the entry at the index of \<^verbatim>\<open>'web-$default'\<close> is read and
  spliced out, the rest is sorted by display name, and the entry read is put in front.
\<close>

definition orderProfiles :: "(string, string) jsmap \<Rightarrow> error + string option list" where
  "orderProfiles names =
     (let unsortedConnectionProfiles = mapKeys names;
          indexOfWeb = indexOf unsortedConnectionProfiles ''web-$default'';
          webProfile = at unsortedConnectionProfiles indexOfWeb;
          unsortedConnectionProfiles = splice_js unsortedConnectionProfiles indexOfWeb 1
      in case array_sort (compareProfiles names) unsortedConnectionProfiles of
           Inl e \<Rightarrow> Inl e
         | Inr sortedProfiles \<Rightarrow> Inr (unshift (map Some sortedProfiles) webProfile))"

text \<open>
  \<^verbatim>\<open>loadIdentityCards\<close>, on the cards the service resolves \<^verbatim>\<open>getIdentityCards\<close> with. An
  exception leaves the fields assigned so far and is passed to the alert service's error
  status by the \<^verbatim>\<open>catch\<close> handler.
\<close>

definition loadIdentityCards :: "IdentityCardService \<Rightarrow> LoginComponent \<Rightarrow> LoginComponent" where
  "loadIdentityCards svc this =
     (let cards = getIdentityCards svc;
          (pairs, names, profiles) = mapCards svc cards ([], []);
          this = this\<lparr>idCards := cards,
                      connectionProfileNames := names,
                      connectionProfiles := profiles\<rparr>;
          newCardRefs = foldl groupCardRef [] pairs
      in case sortGroups svc newCardRefs of
           Inl e \<Rightarrow> this\<lparr>errorStatus := errorStatus this @ [e]\<rparr>
         | Inr newCardRefs \<Rightarrow>
             (let this = this\<lparr>idCardRefs := newCardRefs\<rparr>
              in case orderProfiles (connectionProfileNames this) of
                   Inl e \<Rightarrow> this\<lparr>errorStatus := errorStatus this @ [e]\<rparr>
                 | Inr refs \<Rightarrow> this\<lparr>connectionProfileRefs := refs\<rparr>))"

section \<open>Notions used in the statements and proofs\<close>

text \<open>The profile reference that the component derives for a card.\<close>

definition profileRefOf :: "IdentityCardService \<Rightarrow> IdCard \<Rightarrow> string" where
  "profileRefOf svc idCard = getQualifiedProfileName svc (getConnectionProfile idCard)"

text \<open>The display name recorded for a profile reference.\<close>

definition nameOf :: "(string, string) jsmap \<Rightarrow> string \<Rightarrow> string" where
  "nameOf names ref = (case mapGet names ref of None \<Rightarrow> [] | Some n \<Rightarrow> n)"

text \<open>
  What the \<^verbatim>\<open>map\<close> step of \<^verbatim>\<open>loadIdentityCards\<close> yields on the cards of the service: the
  pairs of profile reference and card reference, the profile names and the profiles.
\<close>

definition discovered ::
  "IdentityCardService \<Rightarrow>
     (string \<times> string) list \<times> (string, string) jsmap \<times> (string, ConnectionProfile) jsmap" where
  "discovered svc = mapCards svc (getIdentityCards svc) ([], [])"

section \<open>Example cards and services\<close>

definition orgA :: ConnectionProfile where
  "orgA = \<lparr>name = ''Org A profile'', profileType = ''hlfv1''\<rparr>"

definition webDefault :: ConnectionProfile where
  "webDefault = \<lparr>name = ''$default'', profileType = ''web''\<rparr>"

definition qualifiedName :: "ConnectionProfile \<Rightarrow> string" where
  "qualifiedName p = profileType p @ ''-'' @ name p"

definition bob :: IdCard where
  "bob = \<lparr>getName = Some ''bob'', getBusinessNetworkName = Some ''net-a'',
          roles = Some [], getConnectionProfile = webDefault\<rparr>"

definition alice :: IdCard where
  "alice = \<lparr>getName = Some ''alice'', getBusinessNetworkName = Some ''net-a'',
            roles = Some [], getConnectionProfile = webDefault\<rparr>"

definition carol :: IdCard where
  "carol = \<lparr>getName = Some ''carol'', getBusinessNetworkName = Some ''net-a'',
            roles = None, getConnectionProfile = orgA\<rparr>"

definition bobThenAlice :: IdentityCardService where
  "bobThenAlice = \<lparr>getIdentityCards = [(''c1'', bob), (''c2'', alice)],
                   getQualifiedProfileName = qualifiedName\<rparr>"

definition carolOnly :: IdentityCardService where
  "carolOnly = \<lparr>getIdentityCards = [(''c1'', carol)],
                getQualifiedProfileName = qualifiedName\<rparr>"

definition noCards :: IdentityCardService where
  "noCards = \<lparr>getIdentityCards = [], getQualifiedProfileName = qualifiedName\<rparr>"

definition earlyOrg :: ConnectionProfile where
  "earlyOrg = \<lparr>name = ''#1 org'', profileType = ''hlfv1''\<rparr>"

definition otherOrgA :: ConnectionProfile where
  "otherOrgA = \<lparr>name = ''Org A profile'', profileType = ''test''\<rparr>"

definition dave :: IdCard where
  "dave = \<lparr>getName = Some ''dave'', getBusinessNetworkName = None,
           roles = Some [''PeerAdmin''], getConnectionProfile = earlyOrg\<rparr>"

definition erin :: IdCard where
  "erin = \<lparr>getName = Some ''erin'', getBusinessNetworkName = Some ''net-b'',
           roles = Some [''PeerAdmin'', ''ChannelAdmin''], getConnectionProfile = otherOrgA\<rparr>"

definition daveThenBob :: IdentityCardService where
  "daveThenBob = \<lparr>getIdentityCards = [(''c1'', dave), (''c2'', bob)],
                  getQualifiedProfileName = qualifiedName\<rparr>"

definition carolThenDave :: IdentityCardService where
  "carolThenDave = \<lparr>getIdentityCards = [(''c1'', carol), (''c2'', dave)],
                    getQualifiedProfileName = qualifiedName\<rparr>"

definition fourProfiles :: IdentityCardService where
  "fourProfiles = \<lparr>getIdentityCards = [(''c1'', erin), (''c2'', bob), (''c3'', carol), (''c4'', dave), (''c5'', alice)],
                   getQualifiedProfileName = qualifiedName\<rparr>"

definition emptyComponent :: LoginComponent where
  "emptyComponent = \<lparr>connectionProfileRefs = [], connectionProfileNames = [],
     connectionProfiles = [], idCardRefs = [], idCards = [], errorStatus = []\<rparr>"

lemmas fixtures =
  orgA_def webDefault_def qualifiedName_def bob_def alice_def carol_def
  bobThenAlice_def carolOnly_def noCards_def
  earlyOrg_def otherOrgA_def dave_def erin_def daveThenBob_def carolThenDave_def
  fourProfiles_def emptyComponent_def

lemmas evaluation =
  loadIdentityCards_def discoverProfile_def mapHas_def mapGet_def groupCardRef_def
  sortIdCards_def getIdentityCard_def compareIdCards_def sortBy_def jsStr_def getRoles_def
  js_lt_def js_gt_def orderProfiles_def mapKeys_def at_def splice_js_def unshift_def
  compareProfiles_def Let_def

section \<open>Properties of the array and map operations\<close>

subsection \<open>Arrays\<close>

lemma indexOf_range: "-1 \<le> indexOf xs v \<and> indexOf xs v < int (length xs)"
  by (induction xs) (auto simp: Let_def)

lemma indexOf_absent: "v \<notin> set xs \<Longrightarrow> indexOf xs v = -1"
  by (induction xs) (auto simp: Let_def)

lemma indexOf_present: "v \<in> set xs \<Longrightarrow> 0 \<le> indexOf xs v \<and> xs ! nat (indexOf xs v) = v"
proof (induction xs)
  case Nil
  then show ?case by simp
next
  case (Cons x xs)
  show ?case
  proof (cases "x = v")
    case True
    then show ?thesis by simp
  next
    case False
    with Cons have "0 \<le> indexOf xs v \<and> xs ! nat (indexOf xs v) = v" by simp
    with False show ?thesis by (simp add: Let_def nat_add_distrib)
  qed
qed

lemma at_indexOf: "at xs (indexOf xs v) = (if v \<in> set xs then Some v else None)"
  using indexOf_range [of xs v] indexOf_present [of v xs] indexOf_absent [of v xs]
  by (auto simp: at_def)

lemma splice_Cons: "0 \<le> i \<Longrightarrow> splice_js (x # xs) (i + 1) 1 = x # splice_js xs i 1"
  by (auto simp: splice_js_def Let_def nat_add_distrib min_def max_def)

lemma splice_zero: "splice_js (x # xs) 0 1 = xs"
  by (simp add: splice_js_def Let_def min_def max_def)

lemma splice_indexOf_present: "v \<in> set xs \<Longrightarrow> splice_js xs (indexOf xs v) 1 = remove1 v xs"
proof (induction xs)
  case Nil
  then show ?case by simp
next
  case (Cons x xs)
  show ?case
  proof (cases "x = v")
    case True
    then show ?thesis by (simp add: splice_zero)
  next
    case False
    with Cons.prems have m: "v \<in> set xs" by simp
    then have "0 \<le> indexOf xs v" by (simp add: indexOf_present)
    with False m Cons.IH show ?thesis by (simp add: Let_def splice_Cons)
  qed
qed

lemma splice_last: "splice_js xs (-1) 1 = butlast xs"
proof (cases "xs = []")
  case True
  then show ?thesis by (simp add: splice_js_def)
next
  case False
  then have l: "0 < length xs" by simp
  then have "splice_js xs (-1) 1 = take (length xs - 1) xs @ drop (length xs) xs"
    by (simp add: splice_js_def Let_def min_def max_def nat_diff_distrib' int_ops)
  then show ?thesis by (simp add: butlast_conv_take)
qed

subsection \<open>The sort\<close>

lemma insertBy_total:
  assumes "\<forall>y\<in>set ys. \<exists>v. cmp x y = Inr v"
  shows "\<exists>zs. insertBy cmp x ys = Inr zs \<and> mset zs = add_mset x (mset ys)"
  using assms
proof (induction ys)
  case Nil
  then show ?case by simp
next
  case (Cons y ys)
  then obtain v where v: "cmp x y = Inr v" by auto
  from Cons obtain zs where zs: "insertBy cmp x ys = Inr zs" "mset zs = add_mset x (mset ys)"
    by auto
  show ?case using v zs by simp
qed

lemma array_sort_total:
  assumes "\<forall>x\<in>set xs. \<forall>y\<in>set xs. \<exists>v. cmp x y = Inr v"
  shows "\<exists>ys. array_sort cmp xs = Inr ys \<and> mset ys = mset xs"
  using assms
proof (induction xs)
  case Nil
  then show ?case by simp
next
  case (Cons x xs)
  then obtain ys where ys: "array_sort cmp xs = Inr ys" "mset ys = mset xs" by auto
  then have "set ys = set xs" by (metis set_mset_mset)
  with Cons.prems have "\<forall>y\<in>set ys. \<exists>v. cmp x y = Inr v" by simp
  then have "\<exists>zs. insertBy cmp x ys = Inr zs \<and> mset zs = add_mset x (mset ys)"
    by (rule insertBy_total)
  with ys show ?case by auto
qed

lemma insertBy_key:
  fixes f :: "'a \<Rightarrow> 'k::linorder"
  assumes "\<forall>y\<in>set ys. \<exists>v. cmp x y = Inr v \<and> (sortCompare v \<le> 0 \<longleftrightarrow> f x \<le> f y)"
  shows "insertBy cmp x ys = Inr (insort_key f x ys)"
  using assms
proof (induction ys)
  case Nil
  then show ?case by simp
next
  case (Cons y ys)
  then obtain v where v: "cmp x y = Inr v" "sortCompare v \<le> 0 \<longleftrightarrow> f x \<le> f y" by auto
  from Cons have "insertBy cmp x ys = Inr (insort_key f x ys)" by simp
  with v show ?case by simp
qed

lemma array_sort_key:
  fixes f :: "'a \<Rightarrow> 'k::linorder"
  assumes "\<forall>x\<in>set xs. \<forall>y\<in>set xs. \<exists>v. cmp x y = Inr v \<and> (sortCompare v \<le> 0 \<longleftrightarrow> f x \<le> f y)"
  shows "array_sort cmp xs = Inr (sort_key f xs)"
  using assms
proof (induction xs)
  case Nil
  then show ?case by simp
next
  case (Cons x xs)
  then have s: "array_sort cmp xs = Inr (sort_key f xs)" by simp
  from Cons.prems
  have "\<forall>y\<in>set (sort_key f xs). \<exists>v. cmp x y = Inr v \<and> (sortCompare v \<le> 0 \<longleftrightarrow> f x \<le> f y)"
    by simp
  then have "insertBy cmp x (sort_key f xs) = Inr (insort_key f x (sort_key f xs))"
    by (rule insertBy_key)
  with s show ?case by simp
qed

subsection \<open>Maps\<close>

lemma mapSet_keys: "map fst (mapSet m k v) = (if k \<in> fst ` set m then map fst m else map fst m @ [k])"
  by (induction m) auto

lemma mapSet_members: "(p, v') \<in> set (mapSet m k v) \<Longrightarrow> (p, v') \<in> set m \<or> (p = k \<and> v' = v)"
  by (induction m) (auto split: if_splits)

section \<open>The steps of \<^verbatim>\<open>loadIdentityCards\<close>\<close>

subsection \<open>Discovery\<close>

lemma discoverProfile_pair:
  "fst (discoverProfile svc entry maps) = (profileRefOf svc (snd entry), fst entry)"
  by (simp add: discoverProfile_def profileRefOf_def Let_def)

lemma discoverProfile_keys:
  "mapKeys (fst (snd (discoverProfile svc entry maps))) =
     (if profileRefOf svc (snd entry) \<in> set (mapKeys (fst maps)) then mapKeys (fst maps)
      else mapKeys (fst maps) @ [profileRefOf svc (snd entry)])"
  by (auto simp: discoverProfile_def profileRefOf_def Let_def mapKeys_def mapHas_def
      mapSet_keys map_of_eq_None_iff)

lemma mapCards_pairs:
  "fst (mapCards svc cards maps) = map (\<lambda>entry. (profileRefOf svc (snd entry), fst entry)) cards"
proof (induction cards arbitrary: maps)
  case Nil
  then show ?case by simp
next
  case (Cons entry rest)
  show ?case
    using Cons.IH [of "snd (discoverProfile svc entry maps)"] discoverProfile_pair [of svc entry maps]
    by (simp add: split_def Let_def)
qed

lemma mapCards_keys:
  assumes "distinct (mapKeys (fst maps))"
  shows "distinct (mapKeys (fst (snd (mapCards svc cards maps))))
    \<and> set (mapKeys (fst (snd (mapCards svc cards maps))))
        = set (mapKeys (fst maps)) \<union> (\<lambda>entry. profileRefOf svc (snd entry)) ` set cards"
  using assms
proof (induction cards arbitrary: maps)
  case Nil
  then show ?case by simp
next
  case (Cons entry rest)
  let ?maps' = "snd (discoverProfile svc entry maps)"
  have k: "mapKeys (fst ?maps') =
     (if profileRefOf svc (snd entry) \<in> set (mapKeys (fst maps)) then mapKeys (fst maps)
      else mapKeys (fst maps) @ [profileRefOf svc (snd entry)])"
    by (rule discoverProfile_keys)
  with Cons.prems have d: "distinct (mapKeys (fst ?maps'))" by simp
  have r: "mapCards svc (entry # rest) maps
      = (fst (discoverProfile svc entry maps) # fst (mapCards svc rest ?maps'),
         snd (mapCards svc rest ?maps'))"
    by (simp add: split_def Let_def)
  from Cons.IH [OF d] k show ?case unfolding r by auto
qed

subsection \<open>Grouping\<close>

lemma mapSet_append_concat:
  "mset (concat (map snd (mapSet m k ((case map_of m k of None \<Rightarrow> [] | Some refs \<Rightarrow> refs) @ [c]))))
     = add_mset c (mset (concat (map snd m)))"
  by (induction m) auto

lemma groupCardRef_concat:
  "mset (concat (map snd (groupCardRef prev cur))) = add_mset (snd cur) (mset (concat (map snd prev)))"
  by (simp add: groupCardRef_def mapGet_def Let_def mapSet_append_concat)

lemma foldl_groupCardRef_concat:
  "mset (concat (map snd (foldl groupCardRef prev pairs)))
     = mset (concat (map snd prev)) + mset (map snd pairs)"
  by (induction pairs arbitrary: prev) (simp_all add: groupCardRef_concat)

lemma groupCardRef_keys:
  "distinct (mapKeys prev) \<Longrightarrow> distinct (mapKeys (groupCardRef prev cur))"
  by (auto simp: groupCardRef_def mapKeys_def Let_def mapSet_keys)

lemma foldl_groupCardRef_keys:
  "distinct (mapKeys prev) \<Longrightarrow> distinct (mapKeys (foldl groupCardRef prev pairs))"
  by (induction pairs arbitrary: prev) (simp_all add: groupCardRef_keys)

lemma groupCardRef_members:
  assumes "(p, refs) \<in> set (groupCardRef prev cur)" and "r \<in> set refs"
  shows "(\<exists>refs'. (p, refs') \<in> set prev \<and> r \<in> set refs') \<or> (p, r) = cur"
proof -
  from assms(1) have "(p, refs) \<in> set prev
      \<or> (p = fst cur \<and> refs = (case mapGet prev (fst cur) of None \<Rightarrow> [] | Some refs \<Rightarrow> refs) @ [snd cur])"
    unfolding groupCardRef_def Let_def by (rule mapSet_members)
  with assms(2) show ?thesis
    by (cases cur) (auto simp: mapGet_def split: option.splits dest: map_of_SomeD)
qed

lemma foldl_groupCardRef_members:
  assumes "(p, refs) \<in> set (foldl groupCardRef prev pairs)" and "r \<in> set refs"
  shows "(\<exists>refs'. (p, refs') \<in> set prev \<and> r \<in> set refs') \<or> (p, r) \<in> set pairs"
  using assms
proof (induction pairs arbitrary: prev)
  case Nil
  then show ?case by auto
next
  case (Cons cur pairs)
  from Cons.IH [of "groupCardRef prev cur"] Cons.prems
  have "(\<exists>refs'. (p, refs') \<in> set (groupCardRef prev cur) \<and> r \<in> set refs') \<or> (p, r) \<in> set pairs"
    by simp
  then show ?case
    using groupCardRef_members [of p _ prev cur r] by auto
qed

subsection \<open>Sorting the groups\<close>

lemma sortIdCards_total:
  assumes "a \<in> set (mapKeys (getIdentityCards svc))" and "b \<in> set (mapKeys (getIdentityCards svc))"
  shows "\<exists>v. sortIdCards svc a b = Inr v"
proof -
  have "map_of (getIdentityCards svc) a \<noteq> None" "map_of (getIdentityCards svc) b \<noteq> None"
    using assms by (simp_all add: mapKeys_def map_of_eq_None_iff)
  then obtain cardA cardB where
    "getIdentityCard svc a = Some cardA" "getIdentityCard svc b = Some cardB"
    by (auto simp: getIdentityCard_def mapGet_def)
  then show ?thesis by (simp add: sortIdCards_def)
qed

lemma sortGroups_total:
  assumes "\<forall>(key, cardRefs) \<in> set groups. set cardRefs \<subseteq> set (mapKeys (getIdentityCards svc))"
  shows "\<exists>sortedGroups. sortGroups svc groups = Inr sortedGroups
     \<and> list_all2 (\<lambda>g g'. fst g' = fst g \<and> mset (snd g') = mset (snd g)) groups sortedGroups"
  using assms
proof (induction groups)
  case Nil
  then show ?case by simp
next
  case (Cons group rest)
  obtain key cardRefs where g: "group = (key, cardRefs)" by (cases group)
  with Cons.prems have s: "set cardRefs \<subseteq> set (mapKeys (getIdentityCards svc))" by simp
  then have "\<forall>a\<in>set cardRefs. \<forall>b\<in>set cardRefs. \<exists>v. sortIdCards svc a b = Inr v"
    by (auto intro: sortIdCards_total)
  then have "\<exists>ys. array_sort (sortIdCards svc) cardRefs = Inr ys \<and> mset ys = mset cardRefs"
    by (rule array_sort_total)
  then obtain ys where ys: "array_sort (sortIdCards svc) cardRefs = Inr ys" "mset ys = mset cardRefs"
    by auto
  from Cons obtain rest' where r: "sortGroups svc rest = Inr rest'"
    "list_all2 (\<lambda>g g'. fst g' = fst g \<and> mset (snd g') = mset (snd g)) rest rest'"
    by auto
  show ?case using g ys r by simp
qed


lemma sorted_groups_keys:
  "list_all2 (\<lambda>g g'. fst g' = fst g \<and> mset (snd g') = mset (snd g)) groups sortedGroups
     \<Longrightarrow> mapKeys sortedGroups = mapKeys groups"
  by (induction rule: list_all2_induct) (simp_all add: mapKeys_def)

lemma sorted_groups_concat:
  "list_all2 (\<lambda>g g'. fst g' = fst g \<and> mset (snd g') = mset (snd g)) groups sortedGroups
     \<Longrightarrow> mset (concat (map snd sortedGroups)) = mset (concat (map snd groups))"
  by (induction rule: list_all2_induct) simp_all

lemma sorted_groups_members:
  "list_all2 (\<lambda>g g'. fst g' = fst g \<and> mset (snd g') = mset (snd g)) groups sortedGroups
     \<Longrightarrow> (p, refs') \<in> set sortedGroups
     \<Longrightarrow> \<exists>refs. (p, refs) \<in> set groups \<and> set refs' = set refs"
proof (induction rule: list_all2_induct)
  case Nil
  then show ?case by simp
next
  case (Cons g gs g' gs')
  show ?case
  proof (cases "(p, refs') = g'")
    case True
    with Cons.hyps(1) have "fst g = p" "set (snd g) = set refs'"
      by (auto dest: mset_eq_setD)
    then have "(p, snd g) \<in> set (g # gs) \<and> set refs' = set (snd g)"
      by (cases g) auto
    then show ?thesis by blast
  next
    case False
    with Cons.prems have "(p, refs') \<in> set gs'" by simp
    with Cons.IH show ?thesis by auto
  qed
qed

subsection \<open>Ordering the profiles\<close>

lemma compareProfiles_key:
  assumes "a \<in> set (mapKeys names)" and "b \<in> set (mapKeys names)"
  shows "\<exists>v. compareProfiles names a b = Inr v
    \<and> (sortCompare v \<le> 0 \<longleftrightarrow> nameOf names a \<le> nameOf names b)"
proof -
  have "map_of names a \<noteq> None" "map_of names b \<noteq> None"
    using assms by (simp_all add: mapKeys_def map_of_eq_None_iff)
  then obtain na nb where n: "mapGet names a = Some na" "mapGet names b = Some nb"
    by (auto simp: mapGet_def)
  then show ?thesis
    by (auto simp: compareProfiles_def nameOf_def jsStr_def js_lt_def js_gt_def Let_def)
qed

lemma orderProfiles_eq:
  "orderProfiles names =
     Inr ((if ''web-$default'' \<in> set (mapKeys names) then Some ''web-$default'' else None)
          # map Some (sort_key (nameOf names)
              (if ''web-$default'' \<in> set (mapKeys names)
               then remove1 ''web-$default'' (mapKeys names)
               else butlast (mapKeys names))))"
proof -
  let ?keys = "mapKeys names"
  let ?rest = "splice_js ?keys (indexOf ?keys ''web-$default'') 1"
  have rest: "?rest = (if ''web-$default'' \<in> set ?keys then remove1 ''web-$default'' ?keys
                       else butlast ?keys)"
    by (simp add: splice_indexOf_present indexOf_absent splice_last)
  then have "set ?rest \<subseteq> set ?keys"
    by (auto dest: in_set_butlastD set_remove1_subset [THEN subsetD])
  then have "\<forall>a\<in>set ?rest. \<forall>b\<in>set ?rest. \<exists>v. compareProfiles names a b = Inr v
      \<and> (sortCompare v \<le> 0 \<longleftrightarrow> nameOf names a \<le> nameOf names b)"
    by (auto intro!: compareProfiles_key)
  then have "array_sort (compareProfiles names) ?rest = Inr (sort_key (nameOf names) ?rest)"
    by (rule array_sort_key)
  then have "orderProfiles names
      = Inr (at ?keys (indexOf ?keys ''web-$default'') # map Some (sort_key (nameOf names) ?rest))"
    by (simp add: orderProfiles_def Let_def unshift_def)
  then show ?thesis
    unfolding rest by (simp only: at_indexOf)
qed

subsection \<open>The run of \<^verbatim>\<open>loadIdentityCards\<close>\<close>

lemma discovered_pairs:
  "fst (discovered svc)
     = map (\<lambda>entry. (profileRefOf svc (snd entry), fst entry)) (getIdentityCards svc)"
  by (simp add: discovered_def mapCards_pairs)

lemma discovered_keys:
  "distinct (mapKeys (fst (snd (discovered svc))))"
  "set (mapKeys (fst (snd (discovered svc))))
     = (\<lambda>entry. profileRefOf svc (snd entry)) ` set (getIdentityCards svc)"
  using mapCards_keys [of "([], [])" svc "getIdentityCards svc"]
  by (simp_all add: discovered_def mapKeys_def)

lemma grouped_members:
  assumes "(p, refs) \<in> set (foldl groupCardRef [] (fst (discovered svc)))" and "r \<in> set refs"
  shows "\<exists>idCard. (r, idCard) \<in> set (getIdentityCards svc) \<and> profileRefOf svc idCard = p"
proof -
  from foldl_groupCardRef_members [OF assms]
  have "(p, r) \<in> set (fst (discovered svc))" by simp
  then show ?thesis by (auto simp: discovered_pairs)
qed

lemma sortGroups_discovered:
  "\<exists>sortedGroups.
     sortGroups svc (foldl groupCardRef [] (fst (discovered svc))) = Inr sortedGroups
     \<and> list_all2 (\<lambda>g g'. fst g' = fst g \<and> mset (snd g') = mset (snd g))
          (foldl groupCardRef [] (fst (discovered svc))) sortedGroups"
proof (rule sortGroups_total)
  show "\<forall>(key, cardRefs)\<in>set (foldl groupCardRef [] (fst (discovered svc))).
          set cardRefs \<subseteq> set (mapKeys (getIdentityCards svc))"
  proof (clarify)
    fix key cardRefs r
    assume "(key, cardRefs) \<in> set (foldl groupCardRef [] (fst (discovered svc)))" "r \<in> set cardRefs"
    then have "\<exists>idCard. (r, idCard) \<in> set (getIdentityCards svc) \<and> profileRefOf svc idCard = key"
      by (rule grouped_members)
    then show "r \<in> set (mapKeys (getIdentityCards svc))"
      by (force simp: mapKeys_def)
  qed
qed

lemma loadIdentityCards_eq:
  assumes "sortGroups svc (foldl groupCardRef [] (fst (discovered svc))) = Inr sortedGroups"
    and "orderProfiles (fst (snd (discovered svc))) = Inr refs"
  shows "loadIdentityCards svc this =
     this\<lparr>idCards := getIdentityCards svc,
          connectionProfileNames := fst (snd (discovered svc)),
          connectionProfiles := snd (snd (discovered svc)),
          idCardRefs := sortedGroups,
          connectionProfileRefs := refs\<rparr>"
  using assms
  by (simp add: loadIdentityCards_def discovered_def split_def Let_def)

lemma nameOf_get:
  "r \<in> set (mapKeys names) \<Longrightarrow> mapGet names r = Some (nameOf names r)"
proof -
  assume "r \<in> set (mapKeys names)"
  then have "map_of names r \<noteq> None" by (simp add: mapKeys_def map_of_eq_None_iff)
  then show ?thesis by (auto simp: nameOf_def mapGet_def)
qed

lemma last_notin_butlast: "distinct xs \<Longrightarrow> xs \<noteq> [] \<Longrightarrow> last xs \<notin> set (butlast xs)"
proof -
  assume d: "distinct xs" and n: "xs \<noteq> []"
  then have "distinct (butlast xs @ [last xs])" by simp
  then show ?thesis by simp
qed

lemma filter_remaining:
  assumes "distinct keys" and "rest = remove1 w keys \<or> rest = butlast keys"
  shows "filter (\<lambda>r. r \<in> set rest) keys = rest"
  using assms(2)
proof
  assume r: "rest = remove1 w keys"
  with assms(1) have "filter (\<lambda>r. r \<in> set rest) keys = filter (\<lambda>r. r \<noteq> w) keys"
    by (intro filter_cong) auto
  also have "\<dots> = removeAll w keys" by (simp add: removeAll_filter_not_eq) metis
  also have "\<dots> = rest" using assms(1) r by (simp add: distinct_remove1_removeAll)
  finally show ?thesis .
next
  assume r: "rest = butlast keys"
  show ?thesis
  proof (cases "keys = []")
    case True
    with r show ?thesis by simp
  next
    case False
    then have k: "keys = butlast keys @ [last keys]" by simp
    have "last keys \<notin> set (butlast keys)" using assms(1) False by (rule last_notin_butlast)
    then have "filter (\<lambda>r. r \<in> set (butlast keys)) (butlast keys @ [last keys]) = butlast keys"
      by simp
    with k r show ?thesis by simp
  qed
qed

lemma loadIdentityCards_fields:
  "\<exists>sortedGroups.
     list_all2 (\<lambda>g g'. fst g' = fst g \<and> mset (snd g') = mset (snd g))
       (foldl groupCardRef [] (fst (discovered svc))) sortedGroups
     \<and> (\<forall>this. loadIdentityCards svc this =
          this\<lparr>idCards := getIdentityCards svc,
               connectionProfileNames := fst (snd (discovered svc)),
               connectionProfiles := snd (snd (discovered svc)),
               idCardRefs := sortedGroups,
               connectionProfileRefs :=
                 (if ''web-$default'' \<in> set (mapKeys (fst (snd (discovered svc))))
                  then Some ''web-$default'' else None)
                 # map Some (sort_key (nameOf (fst (snd (discovered svc))))
                     (if ''web-$default'' \<in> set (mapKeys (fst (snd (discovered svc))))
                      then remove1 ''web-$default'' (mapKeys (fst (snd (discovered svc))))
                      else butlast (mapKeys (fst (snd (discovered svc))))))\<rparr>)"
proof -
  from sortGroups_discovered [of svc] obtain sortedGroups where
    s: "sortGroups svc (foldl groupCardRef [] (fst (discovered svc))) = Inr sortedGroups"
    and l: "list_all2 (\<lambda>g g'. fst g' = fst g \<and> mset (snd g') = mset (snd g))
       (foldl groupCardRef [] (fst (discovered svc))) sortedGroups"
    by blast
  from loadIdentityCards_eq [OF s orderProfiles_eq] l show ?thesis by blast
qed

section \<open>The key comparison \<^verbatim>\<open>sortBy\<close>\<close>

lemma sortBy_zero_sym: "sortBy x y = 0 \<Longrightarrow> sortBy y x = 0"
  by (auto simp: sortBy_def js_lt_def js_gt_def split: if_splits option.splits)

text \<open>
  C10: \<^verbatim>\<open>sortBy\<close> treats every falsy value as absent. The empty string compares equal to
  \<^verbatim>\<open>undefined\<close>, it compares like \<^verbatim>\<open>undefined\<close> against every other value, and both
  come before (\<open>-1\<close>) every non-empty name. The card comparator therefore cannot tell a
  card whose business network name (or card name) is the empty string from the same card
  with that name absent, in either position.
\<close>

theorem sortBy_falsy_is_absent:
  "sortBy (Str []) Undefined = 0 \<and> sortBy Undefined (Str []) = 0
   \<and> sortBy (Str []) v = sortBy Undefined v \<and> sortBy v (Str []) = sortBy v Undefined
   \<and> (s \<noteq> [] \<longrightarrow> sortBy (Str []) (Str s) = -1 \<and> sortBy Undefined (Str s) = -1)
   \<and> compareIdCards (cardA\<lparr>getBusinessNetworkName := Some []\<rparr>) cardB
       = compareIdCards (cardA\<lparr>getBusinessNetworkName := None\<rparr>) cardB
   \<and> compareIdCards cardA (cardB\<lparr>getBusinessNetworkName := Some []\<rparr>)
       = compareIdCards cardA (cardB\<lparr>getBusinessNetworkName := None\<rparr>)
   \<and> compareIdCards (cardA\<lparr>getName := Some []\<rparr>) cardB
       = compareIdCards (cardA\<lparr>getName := None\<rparr>) cardB
   \<and> compareIdCards cardA (cardB\<lparr>getName := Some []\<rparr>)
       = compareIdCards cardA (cardB\<lparr>getName := None\<rparr>)"
proof -
  have l: "sortBy (Str []) w = sortBy Undefined w" for w
    by (simp add: sortBy_def)
  have r: "sortBy w (Str []) = sortBy w Undefined" for w
    by (simp add: sortBy_def)
  have n: "s \<noteq> [] \<longrightarrow> sortBy (Str []) (Str s) = -1 \<and> sortBy Undefined (Str s) = -1"
    by (simp add: sortBy_def)
  have z: "sortBy (Str []) Undefined = 0 \<and> sortBy Undefined (Str []) = 0"
    by (simp add: sortBy_def)
  have c: "compareIdCards (cardA\<lparr>getBusinessNetworkName := Some []\<rparr>) cardB
       = compareIdCards (cardA\<lparr>getBusinessNetworkName := None\<rparr>) cardB"
    "compareIdCards cardA (cardB\<lparr>getBusinessNetworkName := Some []\<rparr>)
       = compareIdCards cardA (cardB\<lparr>getBusinessNetworkName := None\<rparr>)"
    "compareIdCards (cardA\<lparr>getName := Some []\<rparr>) cardB
       = compareIdCards (cardA\<lparr>getName := None\<rparr>) cardB"
    "compareIdCards cardA (cardB\<lparr>getName := Some []\<rparr>)
       = compareIdCards cardA (cardB\<lparr>getName := None\<rparr>)"
    by (simp_all add: compareIdCards_def jsStr_def getRoles_def Let_def l r)
  from l r n z c show ?thesis by blast
qed

text \<open>
  The same at a business network name \<^verbatim>\<open>'net-a'\<close>: bob with an empty or an absent
  business network name sorts before alice.
\<close>

theorem sortBy_falsy_is_absent_witness:
  "''net-a'' \<noteq> [] \<and> sortBy (Str []) (Str ''net-a'') = -1 \<and> sortBy Undefined (Str ''net-a'') = -1
   \<and> compareIdCards (bob\<lparr>getBusinessNetworkName := Some []\<rparr>) alice = Some (-1)
   \<and> compareIdCards (bob\<lparr>getBusinessNetworkName := None\<rparr>) alice = Some (-1)"
  using sortBy_falsy_is_absent [of "Str ''net-a''" "''net-a''" bob alice]
  by (simp add: compareIdCards_def sortBy_def jsStr_def getRoles_def js_lt_def js_gt_def fixtures)

section \<open>The card comparator \<^verbatim>\<open>sortIdCards\<close>\<close>



text \<open>
  C4 at two cards of one profile, bob stored before alice: their business networks and
  their roles compare equal and \<^verbatim>\<open>sortBy\<close> puts the name bob after alice, but
  \<^verbatim>\<open>sortIdCards\<close> ends without returning that result. The sort reads a tie and the group
  keeps bob's card before alice's.
\<close>

theorem sortIdCards_ignores_name:
  "sortBy (jsStr (getBusinessNetworkName bob)) (jsStr (getBusinessNetworkName alice)) = 0
   \<and> sortBy (Arr (getRoles bob)) (Arr (getRoles alice)) = 0
   \<and> sortBy (jsStr (getName bob)) (jsStr (getName alice)) = 1
   \<and> sortIdCards bobThenAlice ''c1'' ''c2'' = Inr None
   \<and> idCardRefs (loadIdentityCards bobThenAlice this) = [(''web-$default'', [''c1'', ''c2''])]"
  by (simp add: evaluation fixtures)

section \<open>\<^verbatim>\<open>loadIdentityCards\<close> at inputs without the web profile\<close>

text \<open>
  C2 at the empty mapping: the names and the groups are empty, but the profile order is
  not: it holds one entry, \<^verbatim>\<open>undefined\<close>, the value read at index \<open>-1\<close>.
\<close>

theorem loadIdentityCards_no_cards:
  "connectionProfileNames (loadIdentityCards noCards this) = []
   \<and> idCardRefs (loadIdentityCards noCards this) = []
   \<and> connectionProfileRefs (loadIdentityCards noCards this) = [None]"
  by (simp add: evaluation fixtures)

text \<open>
  C1 at a single card of the profile Org A: the profile names have the one key
  \<^verbatim>\<open>'hlfv1-Org A profile'\<close>, and the profile order holds \<^verbatim>\<open>undefined\<close> in its place.
\<close>

theorem loadIdentityCards_without_web_profile:
  "mapKeys (connectionProfileNames (loadIdentityCards carolOnly this)) = [''hlfv1-Org A profile'']
   \<and> connectionProfileRefs (loadIdentityCards carolOnly this) = [None]"
  by (simp add: evaluation fixtures)

section \<open>The order of the profiles\<close>

text \<open>
  C3: when some card of the service has the derived profile reference
  \<^verbatim>\<open>'web-$default'\<close>, index \<open>0\<close> of the computed profile order holds that reference,
  whatever its display name and the display names of the other profiles are.
\<close>

theorem web_profile_first:
  assumes "(cardRef, idCard) \<in> set (getIdentityCards svc)"
    and "getQualifiedProfileName svc (getConnectionProfile idCard) = ''web-$default''"
  shows "at (connectionProfileRefs (loadIdentityCards svc this)) 0 = Some (Some ''web-$default'')"
proof -
  from assms have "''web-$default'' \<in> set (mapKeys (fst (snd (discovered svc))))"
    by (force simp: discovered_keys(2) profileRefOf_def)
  moreover obtain sortedGroups where
    "\<forall>this. loadIdentityCards svc this =
          this\<lparr>idCards := getIdentityCards svc,
               connectionProfileNames := fst (snd (discovered svc)),
               connectionProfiles := snd (snd (discovered svc)),
               idCardRefs := sortedGroups,
               connectionProfileRefs :=
                 (if ''web-$default'' \<in> set (mapKeys (fst (snd (discovered svc))))
                  then Some ''web-$default'' else None)
                 # map Some (sort_key (nameOf (fst (snd (discovered svc))))
                     (if ''web-$default'' \<in> set (mapKeys (fst (snd (discovered svc))))
                      then remove1 ''web-$default'' (mapKeys (fst (snd (discovered svc))))
                      else butlast (mapKeys (fst (snd (discovered svc))))))\<rparr>"
    using loadIdentityCards_fields [of svc] by blast
  ultimately show ?thesis by (simp add: at_def)
qed

text \<open>
  Dave's profile has the display name \<^verbatim>\<open>'#1 org'\<close>, which sorts before
  \<^verbatim>\<open>'$default'\<close>, and is discovered first; the web profile still comes first.
\<close>

theorem web_profile_first_witness:
  "((''c2'', bob) \<in> set (getIdentityCards daveThenBob)
    \<and> getQualifiedProfileName daveThenBob (getConnectionProfile bob) = ''web-$default''
    \<and> name earlyOrg < name webDefault)
   \<and> at (connectionProfileRefs (loadIdentityCards daveThenBob emptyComponent)) 0
       = Some (Some ''web-$default'')
   \<and> connectionProfileRefs (loadIdentityCards daveThenBob emptyComponent)
       = [Some ''web-$default'', Some ''hlfv1-#1 org'']"
proof -
  have h1: "(''c2'', bob) \<in> set (getIdentityCards daveThenBob)"
    by (simp add: daveThenBob_def)
  have h2: "getQualifiedProfileName daveThenBob (getConnectionProfile bob) = ''web-$default''"
    by (simp add: fixtures)
  have n: "name earlyOrg < name webDefault"
    by (simp add: fixtures)
  have c: "at (connectionProfileRefs (loadIdentityCards daveThenBob emptyComponent)) 0
       = Some (Some ''web-$default'')"
    using h1 h2 by (rule web_profile_first)
  have e: "connectionProfileRefs (loadIdentityCards daveThenBob emptyComponent)
       = [Some ''web-$default'', Some ''hlfv1-#1 org'']"
    by code_simp
  show ?thesis
    by (rule conjI [OF conjI [OF h1 conjI [OF h2 n]] conjI [OF c e]])
qed

text \<open>
  C9: when the service has cards and none of them has the derived profile reference
  \<^verbatim>\<open>'web-$default'\<close>, index \<open>0\<close> of the computed profile order holds \<^verbatim>\<open>undefined\<close>,
  and the rest of the order holds every discovered profile reference except the last one
  in discovery order (the insertion order of the profile names), each once.
\<close>

theorem web_profile_missing:
  assumes "getIdentityCards svc \<noteq> []"
    and "\<forall>entry \<in> set (getIdentityCards svc).
           getQualifiedProfileName svc (getConnectionProfile (snd entry)) \<noteq> ''web-$default''"
  shows "let keys = mapKeys (connectionProfileNames (loadIdentityCards svc this));
             refs = connectionProfileRefs (loadIdentityCards svc this)
         in keys \<noteq> [] \<and> at refs 0 = Some None
            \<and> mset refs = mset (None # map Some (butlast keys))
            \<and> Some (last keys) \<notin> set refs"
proof -
  let ?keys = "mapKeys (fst (snd (discovered svc)))"
  from assms(2) have a: "''web-$default'' \<notin> set ?keys"
    by (auto simp: discovered_keys(2) profileRefOf_def)
  from assms(1) have "set ?keys \<noteq> {}"
    by (simp add: discovered_keys(2))
  then have n: "?keys \<noteq> []" by auto
  have "distinct ?keys" by (rule discovered_keys(1))
  then have l: "last ?keys \<notin> set (butlast ?keys)" using n by (rule last_notin_butlast)
  obtain sortedGroups where
    "\<forall>this. loadIdentityCards svc this =
          this\<lparr>idCards := getIdentityCards svc,
               connectionProfileNames := fst (snd (discovered svc)),
               connectionProfiles := snd (snd (discovered svc)),
               idCardRefs := sortedGroups,
               connectionProfileRefs :=
                 (if ''web-$default'' \<in> set ?keys
                  then Some ''web-$default'' else None)
                 # map Some (sort_key (nameOf (fst (snd (discovered svc))))
                     (if ''web-$default'' \<in> set ?keys
                      then remove1 ''web-$default'' ?keys
                      else butlast ?keys))\<rparr>"
    using loadIdentityCards_fields [of svc] by blast
  with a n l show ?thesis by (auto simp: at_def Let_def)
qed

text \<open>Carol's and dave's profiles, neither the web profile: dave's, discovered last, is dropped.\<close>

theorem web_profile_missing_witness:
  "(getIdentityCards carolThenDave \<noteq> []
    \<and> getQualifiedProfileName carolThenDave (getConnectionProfile carol) \<noteq> ''web-$default''
    \<and> getQualifiedProfileName carolThenDave (getConnectionProfile dave) \<noteq> ''web-$default'')
   \<and> (let keys = mapKeys (connectionProfileNames (loadIdentityCards carolThenDave emptyComponent));
           refs = connectionProfileRefs (loadIdentityCards carolThenDave emptyComponent)
       in keys \<noteq> [] \<and> at refs 0 = Some None
          \<and> mset refs = mset (None # map Some (butlast keys))
          \<and> Some (last keys) \<notin> set refs)
   \<and> mapKeys (connectionProfileNames (loadIdentityCards carolThenDave emptyComponent))
        = [''hlfv1-Org A profile'', ''hlfv1-#1 org'']
   \<and> connectionProfileRefs (loadIdentityCards carolThenDave emptyComponent)
        = [None, Some ''hlfv1-Org A profile'']"
proof -
  have h1: "getIdentityCards carolThenDave \<noteq> []"
    by (simp add: carolThenDave_def)
  have c1: "getQualifiedProfileName carolThenDave (getConnectionProfile carol) \<noteq> ''web-$default''"
    by (simp add: fixtures)
  have d1: "getQualifiedProfileName carolThenDave (getConnectionProfile dave) \<noteq> ''web-$default''"
    by (simp add: fixtures)
  have h2: "\<forall>entry \<in> set (getIdentityCards carolThenDave).
         getQualifiedProfileName carolThenDave (getConnectionProfile (snd entry)) \<noteq> ''web-$default''"
    using c1 d1 by (simp add: carolThenDave_def)
  note c = web_profile_missing [OF h1 h2, of emptyComponent]
  have e1: "mapKeys (connectionProfileNames (loadIdentityCards carolThenDave emptyComponent))
        = [''hlfv1-Org A profile'', ''hlfv1-#1 org'']"
    by code_simp
  have e2: "connectionProfileRefs (loadIdentityCards carolThenDave emptyComponent)
        = [None, Some ''hlfv1-Org A profile'']"
    by code_simp
  show ?thesis
    by (rule conjI [OF conjI [OF h1 conjI [OF c1 d1]] conjI [OF c conjI [OF e1 e2]]])
qed

text \<open>
  C6: the entries of the computed profile order that are profile references other than
  \<^verbatim>\<open>'web-$default'\<close> all have a display name, their display names are in non-decreasing
  order under the code unit order of strings, and for every display name the entries with
  exactly that name are in the order in which the profiles were discovered. The stability is
  that of \<^verbatim>\<open>Array.prototype.sort\<close>, which the comparator leaves the ties to.
\<close>

theorem profiles_sorted_by_name:
  "let names = connectionProfileNames (loadIdentityCards svc this);
       order = connectionProfileRefs (loadIdentityCards svc this)
   in \<exists>refs ns.
        filter (\<lambda>entry. entry \<noteq> None \<and> entry \<noteq> Some ''web-$default'') order = map Some refs
        \<and> map (mapGet names) refs = map Some ns \<and> sorted ns
        \<and> (\<forall>n. filter (\<lambda>r. mapGet names r = Some n) refs
               = filter (\<lambda>r. mapGet names r = Some n \<and> r \<in> set refs) (mapKeys names))"
proof -
  define names where "names = fst (snd (discovered svc))"
  define keys where "keys = mapKeys names"
  define rest where
    "rest = (if ''web-$default'' \<in> set keys then remove1 ''web-$default'' keys else butlast keys)"
  define refs where "refs = sort_key (nameOf names) rest"
  define webProfile where
    "webProfile = (if ''web-$default'' \<in> set keys then Some ''web-$default'' else None)"
  obtain sortedGroups where run:
    "\<forall>this. loadIdentityCards svc this =
          this\<lparr>idCards := getIdentityCards svc,
               connectionProfileNames := names,
               connectionProfiles := snd (snd (discovered svc)),
               idCardRefs := sortedGroups,
               connectionProfileRefs := webProfile # map Some refs\<rparr>"
    using loadIdentityCards_fields [of svc]
    unfolding names_def keys_def rest_def refs_def webProfile_def by blast
  have d: "distinct keys"
    unfolding keys_def names_def by (rule discovered_keys(1))
  then have w: "''web-$default'' \<notin> set rest"
    by (auto simp: rest_def dest: in_set_butlastD)
  have sub: "set rest \<subseteq> set keys"
    by (auto simp: rest_def dest: in_set_butlastD set_remove1_subset [THEN subsetD])
  have rs: "set refs = set rest"
    by (simp add: refs_def)
  have "filter (\<lambda>entry. entry \<noteq> None \<and> entry \<noteq> Some ''web-$default'') (map Some refs)
      = map Some (filter (\<lambda>r. r \<noteq> ''web-$default'') refs)"
    by (simp add: filter_map comp_def)
  also have "\<dots> = map Some refs"
    using w rs by (auto simp: filter_id_conv)
  finally have ent: "filter (\<lambda>entry. entry \<noteq> None \<and> entry \<noteq> Some ''web-$default'')
      (webProfile # map Some refs) = map Some refs"
    by (simp add: webProfile_def)
  have get: "mapGet names r = Some (nameOf names r)" if "r \<in> set keys" for r
    using that unfolding keys_def by (rule nameOf_get)
  have nm: "map (mapGet names) refs = map Some (map (nameOf names) refs)"
    using sub rs get by auto
  have so: "sorted (map (nameOf names) refs)"
    unfolding refs_def by (rule sorted_sort_key)
  have st: "filter (\<lambda>r. mapGet names r = Some n) refs
      = filter (\<lambda>r. mapGet names r = Some n \<and> r \<in> set refs) keys" for n
  proof -
    have "filter (\<lambda>r. mapGet names r = Some n) refs = filter (\<lambda>r. nameOf names r = n) refs"
      using sub rs get by (intro filter_cong) auto
    also have "\<dots> = filter (\<lambda>r. nameOf names r = n) rest"
      unfolding refs_def by (rule sort_key_stable)
    also have "\<dots> = filter (\<lambda>r. nameOf names r = n) (filter (\<lambda>r. r \<in> set rest) keys)"
      using filter_remaining [OF d, of rest "''web-$default''"] by (simp add: rest_def)
    also have "\<dots> = filter (\<lambda>r. mapGet names r = Some n \<and> r \<in> set refs) keys"
      unfolding filter_filter using get rs by (intro filter_cong) auto
    finally show ?thesis .
  qed
  from ent nm so st have
    "\<exists>refs' ns.
        filter (\<lambda>entry. entry \<noteq> None \<and> entry \<noteq> Some ''web-$default'') (webProfile # map Some refs)
          = map Some refs'
        \<and> map (mapGet names) refs' = map Some ns \<and> sorted ns
        \<and> (\<forall>n. filter (\<lambda>r. mapGet names r = Some n) refs'
               = filter (\<lambda>r. mapGet names r = Some n \<and> r \<in> set refs') keys)"
    by blast
  with run show ?thesis by (simp add: Let_def keys_def)
qed

text \<open>
  Four profiles, two of them with the display name \<^verbatim>\<open>'Org A profile'\<close>: these two keep
  their discovery order behind \<^verbatim>\<open>'#1 org'\<close>.
\<close>

theorem profiles_sorted_by_name_witness:
  "(let names = connectionProfileNames (loadIdentityCards fourProfiles emptyComponent);
       order = connectionProfileRefs (loadIdentityCards fourProfiles emptyComponent)
   in \<exists>refs ns.
        filter (\<lambda>entry. entry \<noteq> None \<and> entry \<noteq> Some ''web-$default'') order = map Some refs
        \<and> map (mapGet names) refs = map Some ns \<and> sorted ns
        \<and> (\<forall>n. filter (\<lambda>r. mapGet names r = Some n) refs
               = filter (\<lambda>r. mapGet names r = Some n \<and> r \<in> set refs) (mapKeys names)))
   \<and> connectionProfileNames (loadIdentityCards fourProfiles emptyComponent)
     = [(''test-Org A profile'', ''Org A profile''), (''web-$default'', ''$default''),
        (''hlfv1-Org A profile'', ''Org A profile''), (''hlfv1-#1 org'', ''#1 org'')]
   \<and> connectionProfileRefs (loadIdentityCards fourProfiles emptyComponent)
     = [Some ''web-$default'', Some ''hlfv1-#1 org'', Some ''test-Org A profile'',
        Some ''hlfv1-Org A profile'']"
proof -
  note c = profiles_sorted_by_name [of fourProfiles emptyComponent]
  have e1: "connectionProfileNames (loadIdentityCards fourProfiles emptyComponent)
     = [(''test-Org A profile'', ''Org A profile''), (''web-$default'', ''$default''),
        (''hlfv1-Org A profile'', ''Org A profile''), (''hlfv1-#1 org'', ''#1 org'')]"
    by code_simp
  have e2: "connectionProfileRefs (loadIdentityCards fourProfiles emptyComponent)
     = [Some ''web-$default'', Some ''hlfv1-#1 org'', Some ''test-Org A profile'',
        Some ''hlfv1-Org A profile'']"
    by code_simp
  show ?thesis
    by (rule conjI [OF c conjI [OF e1 e2]])
qed

text \<open>
  When the web profile is among the discovered profiles, the profile order holds exactly
  the keys of the profile names, each once.
\<close>

lemma profile_order_with_web_profile:
  assumes "''web-$default'' \<in> set (mapKeys (connectionProfileNames (loadIdentityCards svc this)))"
  shows "mset (connectionProfileRefs (loadIdentityCards svc this))
     = mset (map Some (mapKeys (connectionProfileNames (loadIdentityCards svc this))))"
proof -
  define keys where "keys = mapKeys (fst (snd (discovered svc)))"
  obtain sortedGroups where run:
    "\<forall>this. loadIdentityCards svc this =
          this\<lparr>idCards := getIdentityCards svc,
               connectionProfileNames := fst (snd (discovered svc)),
               connectionProfiles := snd (snd (discovered svc)),
               idCardRefs := sortedGroups,
               connectionProfileRefs :=
                 (if ''web-$default'' \<in> set keys then Some ''web-$default'' else None)
                 # map Some (sort_key (nameOf (fst (snd (discovered svc))))
                     (if ''web-$default'' \<in> set keys then remove1 ''web-$default'' keys
                      else butlast keys))\<rparr>"
    using loadIdentityCards_fields [of svc] unfolding keys_def by blast
  from assms run have w: "''web-$default'' \<in> set keys" by (simp add: keys_def)
  then have "mset keys = add_mset ''web-$default'' (mset (remove1 ''web-$default'' keys))"
    by simp
  then have "image_mset Some (mset keys)
      = add_mset (Some ''web-$default'') (image_mset Some (mset (remove1 ''web-$default'' keys)))"
    by (metis image_mset_add_mset)
  with w run show ?thesis by (simp add: keys_def del: mset_remove1)
qed

section \<open>The groups of card references\<close>

text \<open>
  C7: for a mapping of cards (distinct card references), every card reference in the
  group stored under a profile reference \<open>p\<close> maps in the input to a card whose derived
  profile reference is \<open>p\<close>; every profile reference has one group, and the groups
  together hold every input card reference exactly once.
\<close>

theorem groups_partition_cards:
  assumes "distinct (mapKeys (getIdentityCards svc))"
  shows "let groups = idCardRefs (loadIdentityCards svc this)
     in (\<forall>p cardRefs cardRef.
           mapGet groups p = Some cardRefs \<and> cardRef \<in> set cardRefs \<longrightarrow>
           (\<exists>idCard. mapGet (getIdentityCards svc) cardRef = Some idCard
              \<and> getQualifiedProfileName svc (getConnectionProfile idCard) = p))
        \<and> distinct (mapKeys groups)
        \<and> mset (concat (map snd groups)) = mset (mapKeys (getIdentityCards svc))"
proof -
  let ?groups = "foldl groupCardRef [] (fst (discovered svc))"
  obtain sortedGroups refs where
    l: "list_all2 (\<lambda>g g'. fst g' = fst g \<and> mset (snd g') = mset (snd g)) ?groups sortedGroups"
    and "\<forall>this. loadIdentityCards svc this =
          this\<lparr>idCards := getIdentityCards svc,
               connectionProfileNames := fst (snd (discovered svc)),
               connectionProfiles := snd (snd (discovered svc)),
               idCardRefs := sortedGroups,
               connectionProfileRefs := refs\<rparr>"
    using loadIdentityCards_fields [of svc] by blast
  then have run: "\<forall>this. idCardRefs (loadIdentityCards svc this) = sortedGroups"
    by simp
  have k: "distinct (mapKeys sortedGroups)"
    using sorted_groups_keys [OF l] foldl_groupCardRef_keys [of "[]" "fst (discovered svc)"]
    by (simp add: mapKeys_def)
  have "mset (concat (map snd sortedGroups)) = mset (map snd (fst (discovered svc)))"
    using sorted_groups_concat [OF l] by (simp add: foldl_groupCardRef_concat)
  then have c: "mset (concat (map snd sortedGroups)) = mset (mapKeys (getIdentityCards svc))"
    by (simp add: discovered_pairs mapKeys_def comp_def)
  have m: "\<exists>idCard. mapGet (getIdentityCards svc) cardRef = Some idCard
              \<and> getQualifiedProfileName svc (getConnectionProfile idCard) = p"
    if "mapGet sortedGroups p = Some cardRefs" and "cardRef \<in> set cardRefs" for p cardRefs cardRef
  proof -
    from that(1) have "(p, cardRefs) \<in> set sortedGroups"
      by (simp add: mapGet_def map_of_SomeD)
    from sorted_groups_members [OF l this] that(2)
    obtain refs where "(p, refs) \<in> set ?groups" "cardRef \<in> set refs" by auto
    then have "\<exists>idCard. (cardRef, idCard) \<in> set (getIdentityCards svc) \<and> profileRefOf svc idCard = p"
      by (rule grouped_members)
    then obtain idCard where "(cardRef, idCard) \<in> set (getIdentityCards svc)"
      "profileRefOf svc idCard = p" by blast
    with assms show ?thesis
      by (auto simp: mapGet_def mapKeys_def profileRefOf_def)
  qed
  from m k c run show ?thesis by (simp add: Let_def)
qed

text \<open>Five cards on four profiles.\<close>

theorem groups_partition_cards_witness:
  "distinct (mapKeys (getIdentityCards fourProfiles))
   \<and> (distinct (mapKeys (idCardRefs (loadIdentityCards fourProfiles emptyComponent)))
      \<and> mset (concat (map snd (idCardRefs (loadIdentityCards fourProfiles emptyComponent))))
          = mset (mapKeys (getIdentityCards fourProfiles)))
   \<and> idCardRefs (loadIdentityCards fourProfiles emptyComponent)
       = [(''test-Org A profile'', [''c1'']), (''web-$default'', [''c2'', ''c5'']),
          (''hlfv1-Org A profile'', [''c3'']), (''hlfv1-#1 org'', [''c4''])]"
proof -
  have h: "distinct (mapKeys (getIdentityCards fourProfiles))"
    by (simp add: fourProfiles_def mapKeys_def)
  have c: "distinct (mapKeys (idCardRefs (loadIdentityCards fourProfiles emptyComponent)))
      \<and> mset (concat (map snd (idCardRefs (loadIdentityCards fourProfiles emptyComponent))))
          = mset (mapKeys (getIdentityCards fourProfiles))"
    using groups_partition_cards [OF h, of emptyComponent] unfolding Let_def by blast
  have e: "idCardRefs (loadIdentityCards fourProfiles emptyComponent)
       = [(''test-Org A profile'', [''c1'']), (''web-$default'', [''c2'', ''c5'']),
          (''hlfv1-Org A profile'', [''c3'']), (''hlfv1-#1 org'', [''c4''])]"
    by code_simp
  show ?thesis
    by (rule conjI [OF h conjI [OF c e]])
qed

section \<open>Determinism\<close>

text \<open>
  C8: \<^verbatim>\<open>loadIdentityCards\<close> overwrites the five fields it computes with values that
  depend on the cards of the service alone: two runs from any two states of the component
  agree on the profile names, the profile order, the groups, the profiles and the cards, a
  second run changes nothing, and no error is reported.
\<close>

theorem loadIdentityCards_idempotent:
  "loadIdentityCards svc (loadIdentityCards svc this) = loadIdentityCards svc this
   \<and> connectionProfileNames (loadIdentityCards svc this) = connectionProfileNames (loadIdentityCards svc that)
   \<and> connectionProfileRefs (loadIdentityCards svc this) = connectionProfileRefs (loadIdentityCards svc that)
   \<and> idCardRefs (loadIdentityCards svc this) = idCardRefs (loadIdentityCards svc that)
   \<and> connectionProfiles (loadIdentityCards svc this) = connectionProfiles (loadIdentityCards svc that)
   \<and> idCards (loadIdentityCards svc this) = idCards (loadIdentityCards svc that)
   \<and> errorStatus (loadIdentityCards svc this) = errorStatus this"
proof -
  obtain sortedGroups refs where
    "\<forall>this. loadIdentityCards svc this =
          this\<lparr>idCards := getIdentityCards svc,
               connectionProfileNames := fst (snd (discovered svc)),
               connectionProfiles := snd (snd (discovered svc)),
               idCardRefs := sortedGroups,
               connectionProfileRefs := refs\<rparr>"
    using loadIdentityCards_fields [of svc] by blast
  then show ?thesis by simp
qed

end
